theory Spec2Isabelle
  imports Main "HOL-Library.Word" "HOL-Library.Sublist"
begin

unbundle bit_operations_syntax

section \<open>JavaScript strings and numbers\<close>

text \<open>
  A JavaScript string is a sequence of UTF-16 code units; \<open>length\<close> counts code units and
  \<open>charCodeAt\<close> reads one of them as a number between 0 and 65535.
\<close>

type_synonym code_unit = "16 word"
type_synonym jsstring = "code_unit list"

text \<open>String literals of the source, written as HOL strings.\<close>

definition str :: "string \<Rightarrow> jsstring" where
  "str s = map (\<lambda>c. word_of_nat (of_char c)) s"

text \<open>
  \<open>str.charCodeAt(i)\<close>. Out of range the source gets \<open>NaN\<close>, which the bitwise operators
  read as 0; the loop of \<open>stringHash\<close> never reads out of range.
\<close>

definition charCodeAt :: "jsstring \<Rightarrow> nat \<Rightarrow> int" where
  "charCodeAt s i = (if i < length s then uint (s ! i) else 0)"

text \<open>
  JavaScript numbers are doubles. The numbers of \<open>stringHash\<close> are integers below
  \<open>2 ^ 53\<close> in magnitude (see \<open>stringHash_loop_exact\<close>), where double arithmetic is exact,
  so they are modelled as \<open>int\<close>. \<open>a ^ b\<close> converts both operands with ToInt32, works on
  the 32 bits and gives a signed 32-bit integer; \<open>a >>> 0\<close> is ToUint32.
\<close>

definition js_xor :: "int \<Rightarrow> int \<Rightarrow> int" where
  "js_xor a b = sint ((word_of_int a :: 32 word) XOR word_of_int b)"

definition js_ushr0 :: "int \<Rightarrow> int" where
  "js_ushr0 a = uint (word_of_int a :: 32 word)"

section \<open>stringHash\<close>

text \<open>
  The loop \<open>while (i) { hash = (hash * 33) ^ str.charCodeAt(--i); }\<close>, with the loop
  variable \<open>i\<close> counting down from \<open>str.length\<close>.
\<close>

fun stringHash_loop :: "jsstring \<Rightarrow> nat \<Rightarrow> int \<Rightarrow> int" where
  "stringHash_loop s 0 hash = hash"
| "stringHash_loop s (Suc i) hash = stringHash_loop s i (js_xor (hash * 33) (charCodeAt s i))"

definition stringHash :: "jsstring \<Rightarrow> int" where
  "stringHash s = js_ushr0 (stringHash_loop s (length s) 5381)"

text \<open>
  The hash as the specification words it: DJB2-XOR over the characters from the last to the
  first, in 32-bit wrap-around arithmetic, the final 32 bits read as an unsigned integer.
\<close>

definition hash32_spec :: "jsstring \<Rightarrow> int" where
  "hash32_spec s = uint (foldl (\<lambda>h c. (h * 33) XOR ucast c) (5381 :: 32 word) (rev s))"

section \<open>Number.prototype.toString(36)\<close>

text \<open>
  \<open>n.toString(36)\<close> for an integer \<open>n\<close>: the digits \<open>0\<close> to \<open>9\<close> and \<open>a\<close> to \<open>z\<close>,
  most significant first, no leading zero, a minus sign before a negative number.
\<close>

definition digit36 :: "nat \<Rightarrow> code_unit" where
  "digit36 d = (if d < 10 then word_of_nat (48 + d) else word_of_nat (87 + d))"

function digits36 :: "nat \<Rightarrow> jsstring" where
  "digits36 n = (if n < 36 then [digit36 n] else digits36 (n div 36) @ [digit36 (n mod 36)])"
  by pat_completeness auto
termination
  by (relation "measure id") auto

declare digits36.simps [simp del]

definition toString36 :: "int \<Rightarrow> jsstring" where
  "toString36 n = (if n < 0 then 45 # digits36 (nat (- n)) else digits36 (nat n))"

text \<open>The characters of a number in base 36: a digit or a lower-case letter.\<close>

definition isBase36Digit :: "code_unit \<Rightarrow> bool" where
  "isBase36Digit c = ((48 \<le> c \<and> c \<le> 57) \<or> (97 \<le> c \<and> c \<le> 122))"

text \<open>\<open>s.substr(0, n)\<close>: the first \<open>n\<close> code units, or all of \<open>s\<close> when it is shorter.\<close>

definition substr0 :: "nat \<Rightarrow> jsstring \<Rightarrow> jsstring" where
  "substr0 n s = take n s"

section \<open>The regular expressions\<close>

text \<open>\<open>\w\<close> without the unicode flag: \<open>[A-Za-z0-9_]\<close>.\<close>

definition isWordChar :: "code_unit \<Rightarrow> bool" where
  "isWordChar c = ((65 \<le> c \<and> c \<le> 90) \<or> (97 \<le> c \<and> c \<le> 122) \<or> (48 \<le> c \<and> c \<le> 57) \<or> c = 95)"

definition isUpper :: "code_unit \<Rightarrow> bool" where
  "isUpper c = (65 \<le> c \<and> c \<le> 90)"

text \<open>The characters that \<open>.\<close> does not match: LF, CR, U+2028 and U+2029.\<close>

definition isLineTerminator :: "code_unit \<Rightarrow> bool" where
  "isLineTerminator c = (c = 10 \<or> c = 13 \<or> c = 8232 \<or> c = 8233)"

text \<open>
  \<open>COMPONENT_REGEX.test(s)\<close> with \<open>COMPONENT_REGEX = /^[A-Z]\w+$/\<close>: the whole string is
  an upper-case letter followed by one or more word characters.
\<close>

definition COMPONENT_REGEX :: "jsstring \<Rightarrow> bool" where
  "COMPONENT_REGEX s =
     (case s of [] \<Rightarrow> False | c # cs \<Rightarrow> isUpper c \<and> cs \<noteq> [] \<and> list_all isWordChar cs)"

text \<open>
  \<open>SUBCOMPONENT_VARIATION_SELECTOR.test(s)\<close> with the pattern \<open>/^\w+-\w+$/\<close>: the whole
  string is word characters, one hyphen, word characters, both runs non-empty. The first
  \<open>\w+\<close> stops at the first character that is not a word character, which must be the
  hyphen.
\<close>

definition SUBCOMPONENT_VARIATION_SELECTOR :: "jsstring \<Rightarrow> bool" where
  "SUBCOMPONENT_VARIATION_SELECTOR s =
     (takeWhile isWordChar s \<noteq> [] \<and>
      (case dropWhile isWordChar s of
         [] \<Rightarrow> False
       | c # cs \<Rightarrow> c = 45 \<and> cs \<noteq> [] \<and> list_all isWordChar cs))"

text \<open>
  \<open>NESTED_COMPONENT_PATH_REGEX.exec(s)\<close> with the pattern
  \<open>/.*\/components\/(.*)\/components/\<close>, as the backtracking matcher runs it: a literal
  matches a prefix of the input, a greedy \<open>.*\<close> first tries to take one more character and
  gives it back when the rest of the pattern fails, and the match is tried at every start
  position from the left. The result is the array of the whole match and the group.
\<close>

fun startsWith :: "jsstring \<Rightarrow> jsstring \<Rightarrow> bool" where
  "startsWith [] xs = True"
| "startsWith (p # ps) [] = False"
| "startsWith (p # ps) (x # xs) = (p = x \<and> startsWith ps xs)"

definition literal :: "jsstring \<Rightarrow> (jsstring \<Rightarrow> 'a option) \<Rightarrow> jsstring \<Rightarrow> 'a option" where
  "literal p k xs = (if startsWith p xs then k (drop (length p) xs) else None)"

fun dotStar :: "(jsstring \<Rightarrow> jsstring \<Rightarrow> 'a option) \<Rightarrow> jsstring \<Rightarrow> jsstring \<Rightarrow> 'a option" where
  "dotStar k taken [] = k taken []"
| "dotStar k taken (c # cs) =
     (if isLineTerminator c then k taken (c # cs)
      else case dotStar k (taken @ [c]) cs of
             Some r \<Rightarrow> Some r
           | None \<Rightarrow> k taken (c # cs))"

definition nested_match_at :: "jsstring \<Rightarrow> jsstring list option" where
  "nested_match_at xs =
     dotStar (\<lambda>before r1.
       literal (str ''/components/'') (\<lambda>r2.
         dotStar (\<lambda>group r3.
           literal (str ''/components'') (\<lambda>r4.
             Some [before @ str ''/components/'' @ group @ str ''/components'', group]) r3)
           [] r2) r1)
       [] xs"

fun NESTED_COMPONENT_PATH_REGEX_exec :: "jsstring \<Rightarrow> jsstring list option" where
  "NESTED_COMPONENT_PATH_REGEX_exec [] = nested_match_at []"
| "NESTED_COMPONENT_PATH_REGEX_exec (c # cs) =
     (case nested_match_at (c # cs) of
        Some m \<Rightarrow> Some m
      | None \<Rightarrow> NESTED_COMPONENT_PATH_REGEX_exec cs)"

section \<open>The collaborators of the class-name generator\<close>

text \<open>
  \<open>basename\<close> is \<open>path.basename\<close> of Node.js, which is not part of the repository. It is
  modelled after the POSIX implementation in Node's \<open>lib/path.js\<close>: one scan from the end
  of the path that skips trailing slashes, compares the extension from its last character
  backwards and stops at the first slash before the last path segment.
\<close>

record basename_state =
  start :: nat
  end_idx :: int
  matchedSlash :: bool
  extIdx :: int
  firstNonSlashEnd :: int

definition CHAR_FORWARD_SLASH :: code_unit where
  "CHAR_FORWARD_SLASH = 47"

text \<open>
  \<open>for (let i = path.length - 1; i >= 0; --i)\<close> of the branch with an extension; the
  argument \<open>Suc i\<close> stands for the iteration at index \<open>i\<close>, and the \<open>break\<close> is the
  equation that does not recurse.
\<close>

fun basename_ext_loop :: "jsstring \<Rightarrow> jsstring \<Rightarrow> nat \<Rightarrow> basename_state \<Rightarrow> basename_state" where
  "basename_ext_loop path ext 0 st = st"
| "basename_ext_loop path ext (Suc i) st =
     (if path ! i = CHAR_FORWARD_SLASH then
        (if \<not> matchedSlash st then st\<lparr>start := i + 1\<rparr>
         else basename_ext_loop path ext i st)
      else
        (let st1 = (if firstNonSlashEnd st = - 1
                    then st\<lparr>matchedSlash := False, firstNonSlashEnd := int i + 1\<rparr>
                    else st);
             st2 = (if 0 \<le> extIdx st1 then
                      (if path ! i = ext ! nat (extIdx st1) then
                         (if extIdx st1 - 1 = - 1
                          then st1\<lparr>extIdx := extIdx st1 - 1, end_idx := int i\<rparr>
                          else st1\<lparr>extIdx := extIdx st1 - 1\<rparr>)
                       else st1\<lparr>extIdx := - 1, end_idx := firstNonSlashEnd st1\<rparr>)
                    else st1)
         in basename_ext_loop path ext i st2))"

text \<open>The scan of the branch without a usable extension.\<close>

fun basename_plain_loop :: "jsstring \<Rightarrow> nat \<Rightarrow> basename_state \<Rightarrow> basename_state" where
  "basename_plain_loop path 0 st = st"
| "basename_plain_loop path (Suc i) st =
     (if path ! i = CHAR_FORWARD_SLASH then
        (if \<not> matchedSlash st then st\<lparr>start := i + 1\<rparr>
         else basename_plain_loop path i st)
      else if end_idx st = - 1
        then basename_plain_loop path i (st\<lparr>matchedSlash := False, end_idx := int i + 1\<rparr>)
        else basename_plain_loop path i st)"

text \<open>\<open>s.slice(from, to)\<close>; a negative index counts from the end of the string.\<close>

definition slice :: "jsstring \<Rightarrow> int \<Rightarrow> int \<Rightarrow> jsstring" where
  "slice s from to =
     (let len = int (length s);
          a = (if from < 0 then max (len + from) 0 else min from len);
          b = (if to < 0 then max (len + to) 0 else min to len)
      in take (nat (b - a)) (drop (nat a) s))"

definition basename :: "jsstring \<Rightarrow> jsstring \<Rightarrow> jsstring" where
  "basename path ext =
     (let init = \<lparr>start = 0, end_idx = - 1, matchedSlash = True,
                  extIdx = int (length ext) - 1, firstNonSlashEnd = - 1\<rparr>
      in if 0 < length ext \<and> length ext \<le> length path then
           (if ext = path then []
            else
              let st = basename_ext_loop path ext (length path) init;
                  e = (if int (start st) = end_idx st then firstNonSlashEnd st
                       else if end_idx st = - 1 then int (length path)
                       else end_idx st)
              in slice path (int (start st)) e)
         else
           (let st = basename_plain_loop path (length path) init
            in if end_idx st = - 1 then [] else slice path (int (start st)) (end_idx st)))"

text \<open>
  \<open>s.split('-')\<close>: the pieces between the separators, all of them, an empty string
  included; \<open>''.split('-')\<close> is \<open>['']\<close>.
\<close>

fun split :: "code_unit \<Rightarrow> jsstring \<Rightarrow> jsstring list" where
  "split sep [] = [[]]"
| "split sep (c # cs) =
     (if c = sep then [] # split sep cs
      else case split sep cs of
             [] \<Rightarrow> [[c]]
           | w # ws \<Rightarrow> (c # w) # ws)"

text \<open>Reading an array element: \<open>None\<close> is \<open>undefined\<close>, what an index out of range gives.\<close>

definition element :: "'a list \<Rightarrow> nat \<Rightarrow> 'a option" where
  "element xs i = (if i < length xs then Some (xs ! i) else None)"

text \<open>
  \<open>camelCase\<close> comes from the package \<open>change-case\<close>, which is not part of the repository:
  the generator takes it as a parameter, a function from strings to strings. For the
  evaluation of examples, \<open>camelCase_words\<close> is what the package computes on words of
  the letters \<open>a\<close> to \<open>z\<close> separated by single hyphens: the separators go and every
  word but the first is capitalised. On digits, upper-case letters and underscores the
  package does otherwise, and no example uses them.
\<close>

definition toUpperAscii :: "code_unit \<Rightarrow> code_unit" where
  "toUpperAscii c = (if 97 \<le> c \<and> c \<le> 122 then c - 32 else c)"

definition capitalise :: "jsstring \<Rightarrow> jsstring" where
  "capitalise w = (case w of [] \<Rightarrow> [] | c # cs \<Rightarrow> toUpperAscii c # cs)"

definition camelCase_words :: "jsstring \<Rightarrow> jsstring" where
  "camelCase_words s =
     (case filter (\<lambda>w. w \<noteq> []) (split 45 s) of
        [] \<Rightarrow> []
      | w # ws \<Rightarrow> w @ concat (map capitalise ws))"

section \<open>generateScopedName\<close>

datatype js_error = TypeError | RangeError

definition discountsClassName :: "jsstring \<Rightarrow> jsstring" where
  "discountsClassName className = str ''DiscountAppComponents-'' @ className"

definition subcomponentClassName :: "jsstring \<Rightarrow> jsstring \<Rightarrow> jsstring" where
  "subcomponentClassName component subcomponent = component @ str ''__'' @ subcomponent"

definition variationClassName :: "jsstring \<Rightarrow> jsstring \<Rightarrow> jsstring" where
  "variationClassName component variation = component @ str ''--'' @ variation"

definition isComponent :: "jsstring \<Rightarrow> bool" where
  "isComponent className = COMPONENT_REGEX className"

text \<open>The constants \<open>componentName\<close> and \<open>discountsComponentName\<close> of the closure.\<close>

definition componentName :: "jsstring \<Rightarrow> jsstring" where
  "componentName filename = basename filename (str ''.scss'')"

definition discountsComponentName :: "jsstring \<Rightarrow> jsstring" where
  "discountsComponentName filename =
     (case NESTED_COMPONENT_PATH_REGEX_exec filename of
        Some nestedComponentMatch \<Rightarrow>
          if length nestedComponentMatch > 1
          then discountsClassName (nestedComponentMatch ! 1) @ str ''-'' @ componentName filename
          else discountsClassName (componentName filename)
      | None \<Rightarrow> discountsClassName (componentName filename))"

text \<open>
  The class name before the hash suffix. In the second branch the array of \<open>split\<close> is
  destructured into its first two elements; an element that is \<open>undefined\<close> would reach
  \<open>camelCase\<close> outside the strings it is given for, which the model reports as a
  \<open>TypeError\<close>.
\<close>

definition className :: "(jsstring \<Rightarrow> jsstring) \<Rightarrow> jsstring \<Rightarrow> jsstring \<Rightarrow> js_error + jsstring" where
  "className camelCase name filename =
     (if isComponent name then
        Inr (if componentName filename = name
             then discountsComponentName filename
             else subcomponentClassName (discountsComponentName filename) name)
      else if SUBCOMPONENT_VARIATION_SELECTOR name then
        (let parts = split 45 name in
         case (element parts 0, element parts 1) of
           (Some subcomponent, Some variation) \<Rightarrow>
             Inr (variationClassName
                    (subcomponentClassName (discountsComponentName filename) subcomponent)
                    (camelCase variation))
         | _ \<Rightarrow> Inl TypeError)
      else
        Inr (variationClassName (discountsComponentName filename) (camelCase name)))"

definition suffix :: "bool \<Rightarrow> jsstring \<Rightarrow> jsstring" where
  "suffix includeHash name =
     (if includeHash then str ''_'' @ substr0 5 (toString36 (stringHash name)) else [])"

definition generateScopedName ::
  "(jsstring \<Rightarrow> jsstring) \<Rightarrow> bool \<Rightarrow> jsstring \<Rightarrow> jsstring \<Rightarrow> js_error + jsstring" where
  "generateScopedName camelCase includeHash name filename =
     (case className camelCase name filename of
        Inl e \<Rightarrow> Inl e
      | Inr c \<Rightarrow> Inr (c @ suffix includeHash name))"

section \<open>ActiveDatesCard: data\<close>

text \<open>\<open>DateTime\<close> of \<open>~/types\<close>: an ISO 8601 timestamp, a string.\<close>

type_synonym DateTime = jsstring

text \<open>
  Modelled from the spec: \<open>Field\<close> of \<open>~/types\<close>, whose declaration is not among the
  sources. A field holds a \<open>value\<close>, an optional \<open>error\<close> indicator, of which the code
  only reads whether it is set, and the callback \<open>onChange\<close>, which the model records as an
  effect of the handler that calls it.
\<close>

record 'a Field =
  "value" :: 'a
  error :: bool

text \<open>
  A JavaScript \<open>Date\<close>: a time value in milliseconds since the epoch, or the invalid date,
  whose time value is \<open>NaN\<close>.
\<close>

datatype Date = TimeValue int | InvalidDate

text \<open>
  \<open>a >= b\<close> on two dates compares their time values as numbers; a comparison with
  \<open>NaN\<close> is false.
\<close>

definition date_ge :: "Date \<Rightarrow> Date \<Rightarrow> bool" where
  "date_ge a b =
     (case a of
        InvalidDate \<Rightarrow> False
      | TimeValue x \<Rightarrow> (case b of InvalidDate \<Rightarrow> False | TimeValue y \<Rightarrow> y \<le> x))"

text \<open>
  The functions of \<open>~/utilities/dates\<close> are not among the sources, and the rendering of a
  time value as an ISO 8601 string is the platform's: the component is modelled over any
  such functions, of the types their callers give them.
\<close>

record environment =
  getDateTimeInShopTimeZone :: "DateTime \<Rightarrow> jsstring \<Rightarrow> Date"
  getNewDateAtEndOfDay :: "Date \<Rightarrow> Date"
  getDateInUTC :: "Date \<Rightarrow> jsstring \<Rightarrow> Date"
  isoFormat :: "int \<Rightarrow> DateTime"

text \<open>\<open>d.toISOString()\<close> throws a \<open>RangeError\<close> on the invalid date.\<close>

definition toISOString :: "environment \<Rightarrow> Date \<Rightarrow> js_error + DateTime" where
  "toISOString env d =
     (case d of
        InvalidDate \<Rightarrow> Inl RangeError
      | TimeValue t \<Rightarrow> Inr (isoFormat env t))"

text \<open>The truthiness of \<open>endDate.value\<close>: \<open>null\<close> and the empty string are falsy.\<close>

definition truthy :: "DateTime option \<Rightarrow> bool" where
  "truthy v = (case v of None \<Rightarrow> False | Some s \<Rightarrow> s \<noteq> [])"

section \<open>ActiveDatesCard: the pure functions\<close>

definition initShowEndDate :: "DateTime Field \<Rightarrow> DateTime option Field \<Rightarrow> bool" where
  "initShowEndDate startDate endDate =
     (if \<not> truthy (value endDate) then False
      else if value endDate \<noteq> None \<and> error endDate then True
      else Some (value startDate) \<noteq> value endDate)"

definition getValidEndDateTime ::
  "environment \<Rightarrow> DateTime \<Rightarrow> DateTime \<Rightarrow> jsstring \<Rightarrow> js_error + DateTime" where
  "getValidEndDateTime env startDateTime endDateTime ianaTimezone =
     (let startDate = getDateTimeInShopTimeZone env startDateTime ianaTimezone;
          endDate = getDateTimeInShopTimeZone env endDateTime ianaTimezone
      in if date_ge startDate endDate
         then toISOString env (getDateInUTC env (getNewDateAtEndOfDay env startDate) ianaTimezone)
         else Inr endDateTime)"

section \<open>ActiveDatesCard: the handlers\<close>

text \<open>
  What a handler of one render closes over: the two fields, the time zone of the shop and
  the state \<open>showEndDate\<close>.
\<close>

record card =
  startDate :: "DateTime Field"
  endDate :: "DateTime option Field"
  ianaTimezone :: jsstring
  showEndDate :: bool

text \<open>
  What a handler does to the outside: the calls of the two \<open>onChange\<close> callbacks, with
  their argument, and of \<open>setShowEndDate((prev) => !prev)\<close>, in the order of the calls. A
  handler returns the calls it made and the exception that ended it, if one did.
\<close>

datatype effect =
    StartDate_onChange DateTime
  | EndDate_onChange "DateTime option"
  | SetShowEndDate_toggle

type_synonym outcome = "effect list \<times> js_error option"


definition handleEndDateTimeChange :: "environment \<Rightarrow> card \<Rightarrow> DateTime \<Rightarrow> outcome" where
  "handleEndDateTimeChange env c requestedEndDate =
     (case getValidEndDateTime env (value (startDate c)) requestedEndDate (ianaTimezone c) of
        Inl e \<Rightarrow> ([], Some e)
      | Inr nextEndDate \<Rightarrow> ([EndDate_onChange (Some nextEndDate)], None))"

definition handleShowEndDateChange :: "environment \<Rightarrow> card \<Rightarrow> outcome" where
  "handleShowEndDateChange env c =
     (if showEndDate c then ([EndDate_onChange None, SetShowEndDate_toggle], None)
      else
        (let startDateInShopTZ =
               getDateTimeInShopTimeZone env (value (startDate c)) (ianaTimezone c);
             endDateAtEndOfDay =
               getDateInUTC env (getNewDateAtEndOfDay env startDateInShopTZ) (ianaTimezone c)
         in case toISOString env endDateAtEndOfDay of
              Inl e \<Rightarrow> ([], Some e)
            | Inr isoString \<Rightarrow> ([EndDate_onChange (Some isoString), SetShowEndDate_toggle], None)))"

section \<open>ActiveDatesCard: the host\<close>

text \<open>
  Modelled from the spec: the hosting form, which owns the two fields and is not part of
  the repository, and the state hook. The fields are two-way bound: a call of
  \<open>onChange\<close> stores its argument as the value of the field, and setting the end date to
  \<open>null\<close> clears its error as well. \<open>setShowEndDate((prev) => !prev)\<close> flips the state for
  the next render.
\<close>

fun apply_effect :: "card \<Rightarrow> effect \<Rightarrow> card" where
  "apply_effect c (StartDate_onChange v) = c\<lparr>startDate := (startDate c)\<lparr>value := v\<rparr>\<rparr>"
| "apply_effect c (EndDate_onChange None) = c\<lparr>endDate := \<lparr>value = None, error = False\<rparr>\<rparr>"
| "apply_effect c (EndDate_onChange (Some v)) = c\<lparr>endDate := (endDate c)\<lparr>value := Some v\<rparr>\<rparr>"
| "apply_effect c SetShowEndDate_toggle = c\<lparr>showEndDate := \<not> showEndDate c\<rparr>"

text \<open>The card of the render that follows a handler: its effects applied in order.\<close>

definition rerender :: "card \<Rightarrow> outcome \<Rightarrow> card" where
  "rerender c out = foldl apply_effect c (fst out)"

section \<open>A shop for the examples\<close>

text \<open>
  An environment to evaluate examples in: a shop whose time zone is UTC and that knows the
  timestamps of \<open>sample_dates\<close>, each with its time value. Any other string is not a date.
\<close>

definition sample_dates :: "(DateTime \<times> int) list" where
  "sample_dates =
     [(str ''2022-06-12T09:00:00.000Z'', 1655024400000),
      (str ''2022-06-13T10:00:00.000Z'', 1655114400000),
      (str ''2022-06-13T23:59:59.999Z'', 1655164799999),
      (str ''2022-06-14T09:00:00.000Z'', 1655197200000),
      (str ''2022-06-14T23:59:59.999Z'', 1655251199999)]"

definition utc_shop :: environment where
  "utc_shop =
     \<lparr>getDateTimeInShopTimeZone =
        (\<lambda>s tz. case map_of sample_dates s of None \<Rightarrow> InvalidDate | Some t \<Rightarrow> TimeValue t),
      getNewDateAtEndOfDay =
        (\<lambda>d. case d of
               InvalidDate \<Rightarrow> InvalidDate
             | TimeValue t \<Rightarrow> TimeValue (t - t mod 86400000 + 86399999)),
      getDateInUTC = (\<lambda>d tz. d),
      isoFormat =
        (\<lambda>t. case map_of (map (\<lambda>(s, t). (t, s)) sample_dates) t of
               None \<Rightarrow> []
             | Some s \<Rightarrow> s)\<rparr>"

definition sample_card :: card where
  "sample_card =
     \<lparr>startDate = \<lparr>value = str ''2022-06-13T10:00:00.000Z'', error = False\<rparr>,
      endDate = \<lparr>value = Some (str ''2022-06-14T09:00:00.000Z''), error = False\<rparr>,
      ianaTimezone = str ''UTC'',
      showEndDate = True\<rparr>"



section \<open>The hash\<close>

lemma js_xor_word:
  "js_xor (sint (w :: 32 word) * 33) (charCodeAt s i) =
   sint (w * 33 XOR word_of_int (charCodeAt s i))"
  by (simp add: js_xor_def)

lemma charCodeAt_ucast:
  "i < length s \<Longrightarrow> (word_of_int (charCodeAt s i) :: 32 word) = ucast (s ! i)"
  by (simp add: charCodeAt_def)

lemma stringHash_loop_word:
  "i \<le> length s \<Longrightarrow>
   stringHash_loop s i (sint (w :: 32 word)) =
   sint (foldl (\<lambda>h c. (h * 33) XOR ucast c) w (rev (take i s)))"
proof (induction i arbitrary: w)
  case 0
  then show ?case by simp
next
  case (Suc i)
  then have lt: "i < length s" by simp
  have "stringHash_loop s (Suc i) (sint w) =
        stringHash_loop s i (sint (w * 33 XOR ucast (s ! i)))"
    using lt by (simp add: js_xor_word charCodeAt_ucast)
  also have "\<dots> =
      sint (foldl (\<lambda>h c. (h * 33) XOR ucast c) (w * 33 XOR ucast (s ! i)) (rev (take i s)))"
    using Suc.IH [of "w * 33 XOR ucast (s ! i)"] lt by simp
  finally show ?case using lt by (simp add: take_Suc_conv_app_nth)
qed

lemma js_ushr0_sint: "js_ushr0 (sint (w :: 32 word)) = uint w"
  by (simp add: js_ushr0_def)

text \<open>
  The values of the loop are signed 32-bit integers, and 33 times such a value is far below
  \<open>2 ^ 53\<close>: the doubles of the source hold every number of the loop exactly.
\<close>

lemma js_xor_int32: "- (2 ^ 31) \<le> js_xor a b \<and> js_xor a b < 2 ^ 31"
  using sint_ge [of "(word_of_int a :: 32 word) XOR word_of_int b"]
    sint_lt [of "(word_of_int a :: 32 word) XOR word_of_int b"]
  by (simp add: js_xor_def)

lemma stringHash_loop_int32:
  "- (2 ^ 31) \<le> h \<Longrightarrow> h < 2 ^ 31 \<Longrightarrow>
   - (2 ^ 31) \<le> stringHash_loop s i h \<and> stringHash_loop s i h < 2 ^ 31"
proof (induction i arbitrary: h)
  case 0
  then show ?case by simp
next
  case (Suc i)
  show ?case
    using Suc.IH [of "js_xor (h * 33) (charCodeAt s i)"] js_xor_int32 [of "h * 33" "charCodeAt s i"]
    by simp
qed

lemma stringHash_loop_exact:
  "- (2 ^ 31) \<le> (h :: int) \<Longrightarrow> h < 2 ^ 31 \<Longrightarrow> \<bar>h * 33\<bar> < 2 ^ 53"
  by simp

text \<open>
  Claim C5. For every string, \<open>stringHash\<close> lies between 0 and \<open>2 ^ 32 - 1\<close> and is the
  DJB2-XOR hash of the specification: from 5381, over the characters from the last to the
  first, \<open>hash * 33 XOR charCode\<close> in 32-bit wrap-around arithmetic, the final 32 bits read
  as an unsigned integer. Being a function of the string, it is deterministic.
\<close>

theorem stringHash_is_hash32:
  "stringHash s = hash32_spec s \<and> 0 \<le> stringHash s \<and> stringHash s \<le> 2 ^ 32 - 1"
proof -
  have "(5381 :: int) = sint (5381 :: 32 word)" by simp
  then have "stringHash_loop s (length s) 5381 =
      sint (foldl (\<lambda>h c. (h * 33) XOR ucast c) (5381 :: 32 word) (rev (take (length s) s)))"
    using stringHash_loop_word [of "length s" s "5381"] by simp
  then have eq: "stringHash s = hash32_spec s"
    by (simp add: stringHash_def hash32_spec_def js_ushr0_sint)
  have "uint (w :: 32 word) < 2 ^ 32" for w
    using uint_bounded [of w] by simp
  then have "hash32_spec s < 2 ^ 32" by (simp add: hash32_spec_def)
  moreover have "0 \<le> hash32_spec s" by (simp add: hash32_spec_def)
  ultimately show ?thesis using eq by simp
qed

section \<open>Base 36 and the selectors\<close>

lemma digit36_base36: "d < 36 \<Longrightarrow> isBase36Digit (digit36 d)"
proof -
  assume d: "d < 36"
  show ?thesis
  proof (cases "d < 10")
    case True
    then have "digit36 d = (word_of_nat (48 + d) :: 16 word)" by (simp add: digit36_def)
    moreover have "unat (word_of_nat (48 + d) :: 16 word) = 48 + d"
      using True unat_of_nat [where 'a = 16, of "48 + d"] by (simp del: of_nat_add)
    ultimately show ?thesis using True
      by (simp add: isBase36Digit_def word_le_nat_alt)
  next
    case False
    then have "digit36 d = (word_of_nat (87 + d) :: 16 word)" by (simp add: digit36_def)
    moreover have "unat (word_of_nat (87 + d) :: 16 word) = 87 + d"
      using d unat_of_nat [where 'a = 16, of "87 + d"] by (simp del: of_nat_add)
    ultimately show ?thesis using False d
      by (simp add: isBase36Digit_def word_le_nat_alt)
  qed
qed

lemma digits36_base36: "list_all isBase36Digit (digits36 n)"
proof (induction n rule: digits36.induct)
  case (1 n)
  show ?case
  proof (cases "n < 36")
    case True
    then show ?thesis by (simp add: digits36.simps [of n] digit36_base36)
  next
    case False
    then show ?thesis using 1 by (simp add: digits36.simps [of n] digit36_base36)
  qed
qed

lemma digits36_nonempty: "digits36 n \<noteq> []"
  by (simp add: digits36.simps [of n])

lemma digits36_length: "0 < k \<Longrightarrow> (length (digits36 n) \<le> k) = (n < 36 ^ k)"
proof (induction n arbitrary: k rule: digits36.induct)
  case (1 n)
  show ?case
  proof (cases "n < 36")
    case True
    have "(36::nat) ^ 1 \<le> 36 ^ k" using 1(2) by (intro power_increasing) simp_all
    then have "n < 36 ^ k" using True by simp
    then show ?thesis using True 1(2) by (simp add: digits36.simps [of n])
  next
    case False
    obtain j where k: "k = Suc j" using 1(2) by (cases k) simp_all
    show ?thesis
    proof (cases "j = 0")
      case True
      then show ?thesis using False k digits36_nonempty [of "n div 36"]
        by (simp add: digits36.simps [of n])
    next
      case j: False
      have "(length (digits36 (n div 36)) \<le> j) = (n div 36 < 36 ^ j)"
        using 1(1) [OF False, of j] j by simp
      moreover have "(n div 36 < 36 ^ j) = (n < 36 ^ Suc j)"
        by (simp add: less_mult_imp_div_less div_less_iff_less_mult mult.commute)
      ultimately show ?thesis using False k by (simp add: digits36.simps [of n])
    qed
  qed
qed

lemma split_no_sep: "sep \<notin> set u \<Longrightarrow> split sep u = [u]"
  by (induction u) auto

lemma split_append: "sep \<notin> set u \<Longrightarrow> split sep (u @ sep # v) = u # split sep v"
  by (induction u) auto

lemma not_word_hyphen: "\<not> isWordChar 45"
  by (simp add: isWordChar_def)

lemma word_chars_no_hyphen: "list_all isWordChar u \<Longrightarrow> 45 \<notin> set u"
  using not_word_hyphen by (auto simp: list_all_iff)

lemma selector_shape:
  assumes "SUBCOMPONENT_VARIATION_SELECTOR s"
  shows "\<exists>u v. s = u @ 45 # v \<and> u \<noteq> [] \<and> v \<noteq> [] \<and> list_all isWordChar u \<and> list_all isWordChar v"
proof -
  let ?u = "takeWhile isWordChar s"
  from assms obtain c v where d: "dropWhile isWordChar s = c # v" and c: "c = 45"
    and v: "v \<noteq> []" "list_all isWordChar v" and u: "?u \<noteq> []"
    by (auto simp: SUBCOMPONENT_VARIATION_SELECTOR_def split: list.splits)
  have "s = ?u @ 45 # v" using takeWhile_dropWhile_id [of isWordChar s] d c by simp
  moreover have "list_all isWordChar ?u" by (simp add: list_all_iff) (meson set_takeWhileD)
  ultimately show ?thesis using u v by blast
qed

lemma selector_split:
  assumes "SUBCOMPONENT_VARIATION_SELECTOR s"
  shows "\<exists>u v. split 45 s = [u, v]"
proof -
  from selector_shape [OF assms] obtain u v where s: "s = u @ 45 # v"
    and "list_all isWordChar u" "list_all isWordChar v" by blast
  then have "45 \<notin> set u" "45 \<notin> set v" by (simp_all add: word_chars_no_hyphen)
  then have "split 45 s = [u, v]" by (simp add: s split_append split_no_sep)
  then show ?thesis by blast
qed

lemma selector_one_hyphen:
  assumes "SUBCOMPONENT_VARIATION_SELECTOR s"
  shows "length (filter (\<lambda>c. c = 45) s) = 1"
proof -
  from selector_shape [OF assms] obtain u v where s: "s = u @ 45 # v"
    and "list_all isWordChar u" "list_all isWordChar v" by blast
  then have "45 \<notin> set u" "45 \<notin> set v" by (simp_all add: word_chars_no_hyphen)
  then have "filter (\<lambda>c. c = 45) u = []" "filter (\<lambda>c. c = 45) v = []"
    by (auto simp: filter_empty_conv)
  then show ?thesis by (simp add: s)
qed

lemma component_no_hyphen:
  assumes "isComponent s"
  shows "filter (\<lambda>c. c = 45) s = []"
proof -
  from assms obtain c cs where s: "s = c # cs" and c: "isUpper c" and cs: "list_all isWordChar cs"
    by (auto simp: isComponent_def COMPONENT_REGEX_def split: list.splits)
  have "c \<noteq> 45" using c by (auto simp: isUpper_def)
  moreover have "45 \<notin> set cs" using cs by (rule word_chars_no_hyphen)
  ultimately show ?thesis by (auto simp: s filter_empty_conv)
qed

section \<open>The nested-component pattern\<close>

text \<open>
  The pattern fails on a string in which no occurrence of \<open>/components/\<close> is followed by
  an occurrence of \<open>/components\<close>: a greedy \<open>.*\<close> fails when its continuation fails on
  every suffix, and so does the search over the start positions.
\<close>

lemma dotStar_None:
  assumes "\<And>t r. Sublist.suffix r xs \<Longrightarrow> k t r = None"
  shows "dotStar k taken xs = None"
  using assms
proof (induction xs arbitrary: taken)
  case Nil
  then show ?case by simp
next
  case (Cons c cs)
  have here: "k taken (c # cs) = None" using Cons.prems by simp
  have "dotStar k (taken @ [c]) cs = None"
    using Cons.IH Cons.prems by (simp add: suffix_ConsI)
  then show ?case using here by simp
qed

lemma nested_match_at_None:
  assumes "\<And>r1 r3. Sublist.suffix r1 xs \<Longrightarrow> startsWith (str ''/components/'') r1 \<Longrightarrow>
             Sublist.suffix r3 (drop (length (str ''/components/'')) r1) \<Longrightarrow>
             \<not> startsWith (str ''/components'') r3"
  shows "nested_match_at xs = None"
  unfolding nested_match_at_def
proof (rule dotStar_None)
  fix t r1
  assume r1: "Sublist.suffix r1 xs"
  show "literal (str ''/components/'')
          (\<lambda>r2. dotStar (\<lambda>group r3. literal (str ''/components'')
             (\<lambda>r4. Some [t @ str ''/components/'' @ group @ str ''/components'', group]) r3)
             [] r2) r1 = None"
  proof (cases "startsWith (str ''/components/'') r1")
    case False
    then show ?thesis by (simp add: literal_def)
  next
    case True
    have "dotStar (\<lambda>group r3. literal (str ''/components'')
             (\<lambda>r4. Some [t @ str ''/components/'' @ group @ str ''/components'', group]) r3)
             [] (drop (length (str ''/components/'')) r1) = None"
    proof (rule dotStar_None)
      fix g r3
      assume "Sublist.suffix r3 (drop (length (str ''/components/'')) r1)"
      then have "\<not> startsWith (str ''/components'') r3" using assms r1 True by blast
      then show "literal (str ''/components'')
          (\<lambda>r4. Some [t @ str ''/components/'' @ g @ str ''/components'', g]) r3 = None"
        by (simp add: literal_def)
    qed
    then show ?thesis using True by (simp add: literal_def)
  qed
qed

lemma exec_None:
  assumes "\<And>r. Sublist.suffix r xs \<Longrightarrow> nested_match_at r = None"
  shows "NESTED_COMPONENT_PATH_REGEX_exec xs = None"
  using assms
proof (induction xs)
  case Nil
  then show ?case by simp
next
  case (Cons c cs)
  have "nested_match_at (c # cs) = None" using Cons.prems by simp
  moreover have "NESTED_COMPONENT_PATH_REGEX_exec cs = None"
    using Cons.IH Cons.prems by (simp add: suffix_ConsI)
  ultimately show ?case by simp
qed

lemma exec_None_check:
  assumes "list_all (\<lambda>r1. \<not> startsWith (str ''/components/'') r1 \<or>
             list_all (\<lambda>r3. \<not> startsWith (str ''/components'') r3)
               (suffixes (drop (length (str ''/components/'')) r1)))
           (suffixes xs)"
  shows "NESTED_COMPONENT_PATH_REGEX_exec xs = None"
proof (rule exec_None)
  fix r
  assume r: "Sublist.suffix r xs"
  show "nested_match_at r = None"
  proof (rule nested_match_at_None)
    fix r1 r3
    assume "Sublist.suffix r1 r" and s: "startsWith (str ''/components/'') r1"
      and r3: "Sublist.suffix r3 (drop (length (str ''/components/'')) r1)"
    then have "r1 \<in> set (suffixes xs)"
      using r by (auto intro: suffix_order.trans)
    then have "list_all (\<lambda>r3. \<not> startsWith (str ''/components'') r3)
               (suffixes (drop (length (str ''/components/'')) r1))"
      using assms s by (auto simp: list_all_iff)
    then show "\<not> startsWith (str ''/components'') r3"
      using r3 by (auto simp: list_all_iff)
  qed
qed

text \<open>The paths of the examples.\<close>

lemma exec_Inner:
  "NESTED_COMPONENT_PATH_REGEX_exec (str ''components/Outer/components/Inner/Inner.scss'') = None"
  by (rule exec_None_check) code_simp

lemma exec_Card: "NESTED_COMPONENT_PATH_REGEX_exec (str ''components/Card/Card.scss'') = None"
  by (rule exec_None_check) code_simp

lemma exec_src_Inner:
  "NESTED_COMPONENT_PATH_REGEX_exec (str ''src/components/Outer/components/Inner/Inner.scss'') =
   Some [str ''src/components/Outer/components'', str ''Outer'']"
  by code_simp

section \<open>The generated class name\<close>

lemma discountsComponentName_prefix:
  "\<exists>rest. discountsComponentName filename = str ''DiscountAppComponents-'' @ rest"
  by (simp add: discountsComponentName_def discountsClassName_def split: option.split)

lemma element_pair: "element [u, v] 0 = Some u \<and> element [u, v] (Suc 0) = Some v"
  by (simp add: element_def)

lemma className_selector:
  assumes "\<not> isComponent name" and "SUBCOMPONENT_VARIATION_SELECTOR name"
  shows "\<exists>u v. split 45 name = [u, v] \<and>
           className camelCase name filename =
             Inr (variationClassName
                    (subcomponentClassName (discountsComponentName filename) u) (camelCase v))"
proof -
  from selector_split [OF assms(2)] obtain u v where "split 45 name = [u, v]" by blast
  then show ?thesis using assms by (simp add: className_def element_pair)
qed

lemma className_total:
  "\<exists>rest. className camelCase name filename = Inr (str ''DiscountAppComponents-'' @ rest)"
proof -
  obtain p where p: "discountsComponentName filename = str ''DiscountAppComponents-'' @ p"
    using discountsComponentName_prefix by blast
  consider (comp) "isComponent name"
    | (sel) "\<not> isComponent name" "SUBCOMPONENT_VARIATION_SELECTOR name"
    | (var) "\<not> isComponent name" "\<not> SUBCOMPONENT_VARIATION_SELECTOR name"
    by blast
  then show ?thesis
  proof cases
    case comp
    then show ?thesis by (simp add: className_def subcomponentClassName_def p)
  next
    case sel
    from className_selector [OF sel] obtain u v where
      "className camelCase name filename =
         Inr (variationClassName
                (subcomponentClassName (discountsComponentName filename) u) (camelCase v))"
      by blast
    then show ?thesis by (simp add: variationClassName_def subcomponentClassName_def p)
  next
    case var
    then show ?thesis by (simp add: className_def variationClassName_def p)
  qed
qed

text \<open>
  Claim C6. For every rule name, every file path, either value of \<open>includeHash\<close> and
  whatever \<open>camelCase\<close> computes, \<open>generateScopedName\<close> returns a string, never an error,
  and the string begins with \<open>DiscountAppComponents-\<close>.
\<close>

theorem generateScopedName_total_prefixed:
  "\<exists>rest. generateScopedName camelCase includeHash name filename =
     Inr (str ''DiscountAppComponents-'' @ rest)"
proof -
  obtain r where "className camelCase name filename = Inr (str ''DiscountAppComponents-'' @ r)"
    using className_total by blast
  then show ?thesis by (simp add: generateScopedName_def)
qed

lemma toString36_stringHash: "toString36 (stringHash s) = digits36 (nat (stringHash s))"
proof -
  have "0 \<le> stringHash s" by (simp add: stringHash_def js_ushr0_def)
  then show ?thesis by (simp add: toString36_def)
qed

text \<open>
  Claim C3, as the code has it. With \<open>includeHash\<close> the class name of the call without it
  is followed by an underscore and the first five characters of \<open>stringHash\<close> of the rule
  name in base 36, or by all of them when there are fewer: between one and five characters,
  each a digit or a lower-case letter, and five of them exactly when the hash is at least
  \<open>36 ^ 4\<close>. The suffix is a function of the rule name alone.
\<close>

theorem hash_suffix_at_most_five:
  "(\<exists>c. generateScopedName camelCase False name filename = Inr c \<and>
        generateScopedName camelCase True name filename =
          Inr (c @ str ''_'' @ substr0 5 (toString36 (stringHash name)))) \<and>
   list_all isBase36Digit (substr0 5 (toString36 (stringHash name))) \<and>
   1 \<le> length (substr0 5 (toString36 (stringHash name))) \<and>
   length (substr0 5 (toString36 (stringHash name))) \<le> 5 \<and>
   (length (substr0 5 (toString36 (stringHash name))) = 5) = (36 ^ 4 \<le> stringHash name)"
proof -
  let ?n = "nat (stringHash name)"
  have nonneg: "0 \<le> stringHash name" by (simp add: stringHash_def js_ushr0_def)
  have ts: "toString36 (stringHash name) = digits36 ?n" by (rule toString36_stringHash)
  obtain r where "className camelCase name filename = Inr r"
    using className_total by blast
  then have 1: "\<exists>c. generateScopedName camelCase False name filename = Inr c \<and>
        generateScopedName camelCase True name filename =
          Inr (c @ str ''_'' @ substr0 5 (toString36 (stringHash name)))"
    by (simp add: generateScopedName_def suffix_def)
  have "list_all isBase36Digit (digits36 ?n)" by (rule digits36_base36)
  then have 2: "list_all isBase36Digit (substr0 5 (toString36 (stringHash name)))"
    by (auto simp: ts substr0_def list_all_iff dest: in_set_takeD)
  have "0 < length (digits36 ?n)" by (simp add: digits36_nonempty)
  then have 3: "1 \<le> length (substr0 5 (toString36 (stringHash name)))"
    by (simp add: ts substr0_def Suc_le_eq)
  have 4: "length (substr0 5 (toString36 (stringHash name))) \<le> 5"
    by (simp add: substr0_def)
  have "(length (digits36 ?n) \<le> 4) = (?n < 36 ^ 4)"
    by (rule digits36_length) simp
  then have "(length (digits36 ?n) \<le> 4) = (?n < 1679616)" by simp
  moreover have "(?n < 1679616) = (stringHash name < 1679616)" using nonneg by linarith
  ultimately have 5: "(length (substr0 5 (toString36 (stringHash name))) = 5) =
      (36 ^ 4 \<le> stringHash name)"
    by (simp add: ts substr0_def) linarith
  show ?thesis using 1 2 3 4 5 by blast
qed

text \<open>
  Claim C4, as the code has it. A rule name with more than one hyphen matches neither the
  component pattern nor the selector pattern, which admits one hyphen only: it is a plain
  variation, and the whole name goes through \<open>camelCase\<close>.
\<close>

theorem several_hyphens_plain_variation:
  assumes "1 < length (filter (\<lambda>c. c = 45) name)"
  shows "generateScopedName camelCase includeHash name filename =
           Inr (variationClassName (discountsComponentName filename) (camelCase name)
                @ suffix includeHash name)"
proof -
  have "\<not> isComponent name" using assms component_no_hyphen [of name] by auto
  moreover have "\<not> SUBCOMPONENT_VARIATION_SELECTOR name"
    using assms selector_one_hyphen [of name] by auto
  ultimately show ?thesis by (simp add: generateScopedName_def className_def)
qed

lemma componentName_Inner:
  "componentName (str ''components/Outer/components/Inner/Inner.scss'') = str ''Inner''"
  by code_simp

lemma componentName_src_Inner:
  "componentName (str ''src/components/Outer/components/Inner/Inner.scss'') = str ''Inner''"
  by code_simp

lemma componentName_Card:
  "componentName (str ''components/Card/Card.scss'') = str ''Card''"
  by code_simp

lemma isComponent_Inner: "isComponent (str ''Inner'')"
  by code_simp

lemma generate_Inner:
  "generateScopedName camelCase False (str ''Inner'')
     (str ''components/Outer/components/Inner/Inner.scss'') =
   Inr (str ''DiscountAppComponents-Inner'')"
  by (simp add: generateScopedName_def className_def isComponent_Inner componentName_Inner
      discountsComponentName_def exec_Inner discountsClassName_def suffix_def)
    (simp add: str_def)

lemma generate_src_Inner:
  "generateScopedName camelCase False (str ''Inner'')
     (str ''src/components/Outer/components/Inner/Inner.scss'') =
   Inr (str ''DiscountAppComponents-Outer-Inner'')"
  by (simp add: generateScopedName_def className_def isComponent_Inner componentName_src_Inner
      discountsComponentName_def exec_src_Inner discountsClassName_def suffix_def)
    (simp add: str_def)

section \<open>Examples of the class-name generator\<close>

text \<open>
  Claim C2 fails as stated: for the rule name \<open>Inner\<close> and the path
  \<open>components/Outer/components/Inner/Inner.scss\<close> the result is not the doubly wrapped
  name.
\<close>

theorem nested_component_not_double_wrapped:
  "generateScopedName camelCase_words False (str ''Inner'')
     (str ''components/Outer/components/Inner/Inner.scss'') \<noteq>
   Inr (str ''DiscountAppComponents-DiscountAppComponents-Outer-Inner'')"
  using generate_Inner [of camelCase_words] by (simp add: str_def)

text \<open>
  Claim C2, as the code has it. The path \<open>components/Outer/components/Inner/Inner.scss\<close>
  holds \<open>/components/\<close> once, the nested-component pattern does not match it, and the
  result is \<open>DiscountAppComponents-Inner\<close>. On a path that the pattern matches, with the
  group \<open>Outer\<close>, the group is wrapped once and the component name follows it.
\<close>

theorem nested_component_wrapped_once:
  "generateScopedName camelCase False (str ''Inner'')
     (str ''components/Outer/components/Inner/Inner.scss'') =
     Inr (str ''DiscountAppComponents-Inner'') \<and>
   generateScopedName camelCase False (str ''Inner'')
     (str ''src/components/Outer/components/Inner/Inner.scss'') =
     Inr (str ''DiscountAppComponents-Outer-Inner'')"
  using generate_Inner generate_src_Inner by blast

lemma discountsComponentName_Card:
  "discountsComponentName (str ''components/Card/Card.scss'') = str ''DiscountAppComponents-Card''"
  by (simp add: discountsComponentName_def exec_Card componentName_Card discountsClassName_def)
    (simp add: str_def)

lemma stringHash_a: "stringHash (str ''a'') = 177604"
  by (simp add: stringHash_def str_def js_xor_def js_ushr0_def charCodeAt_def)

lemma toString36_a: "toString36 177604 = str ''3t1g''"
  by (simp add: toString36_def digits36.simps digit36_def str_def)

lemma not_isComponent_a: "\<not> isComponent (str ''a'')"
  by code_simp

lemma not_selector_a: "\<not> SUBCOMPONENT_VARIATION_SELECTOR (str ''a'')"
  by code_simp

lemma camelCase_words_a: "camelCase_words (str ''a'') = str ''a''"
  by code_simp

lemma generate_a_hashed:
  "generateScopedName camelCase_words True (str ''a'') (str ''components/Card/Card.scss'') =
   Inr (str ''DiscountAppComponents-Card--a_3t1g'')"
  by (simp add: generateScopedName_def className_def not_isComponent_a not_selector_a
      camelCase_words_a discountsComponentName_Card variationClassName_def suffix_def
      stringHash_a toString36_a substr0_def)
    (simp add: str_def)

text \<open>
  Claim C3 fails as stated: the hash of the rule name \<open>a\<close> is 177604, \<open>3t1g\<close> in base 36,
  and the suffix has four characters after the underscore.
\<close>

theorem hash_suffix_of_one_letter_rule:
  "generateScopedName camelCase_words True (str ''a'') (str ''components/Card/Card.scss'') =
     Inr (str ''DiscountAppComponents-Card--a'' @ str ''_3t1g'') \<and>
   length (str ''3t1g'') \<noteq> 5"
  using generate_a_hashed by (simp add: str_def)

lemma hyphens_button_is_active:
  "1 < length (filter (\<lambda>c. c = 45) (str ''button-is-active''))"
  by code_simp

lemma camelCase_words_button_is_active:
  "camelCase_words (str ''button-is-active'') = str ''buttonIsActive''"
  by code_simp

lemma not_isComponent_button: "\<not> isComponent (str ''button-is-active'')"
  by code_simp

lemma not_selector_button: "\<not> SUBCOMPONENT_VARIATION_SELECTOR (str ''button-is-active'')"
  by code_simp

lemma generate_button_is_active:
  "generateScopedName camelCase_words False (str ''button-is-active'')
     (str ''components/Card/Card.scss'') =
   Inr (str ''DiscountAppComponents-Card--buttonIsActive'')"
  by (simp add: generateScopedName_def className_def not_isComponent_button not_selector_button
      camelCase_words_button_is_active discountsComponentName_Card variationClassName_def
      suffix_def)
    (simp add: str_def)

text \<open>
  Claim C4 fails as stated: \<open>button-is-active\<close> is not split into a subcomponent
  \<open>button\<close> and a variation \<open>is\<close>.
\<close>

theorem several_hyphens_not_split:
  "generateScopedName camelCase_words False (str ''button-is-active'')
     (str ''components/Card/Card.scss'') \<noteq>
   Inr (str ''DiscountAppComponents-Card__button--is'')"
  using generate_button_is_active by (simp add: str_def)

text \<open>The theorem of claim C4 at \<open>button-is-active\<close>.\<close>

theorem several_hyphens_plain_variation_witness:
  "1 < length (filter (\<lambda>c. c = 45) (str ''button-is-active'')) \<and>
   generateScopedName camelCase_words False (str ''button-is-active'')
     (str ''components/Card/Card.scss'') =
   Inr (str ''DiscountAppComponents-Card--buttonIsActive'')"
proof -
  have "variationClassName (discountsComponentName (str ''components/Card/Card.scss''))
          (camelCase_words (str ''button-is-active'')) @ suffix False (str ''button-is-active'') =
        str ''DiscountAppComponents-Card--buttonIsActive''"
    by (simp add: camelCase_words_button_is_active discountsComponentName_Card
        variationClassName_def suffix_def) (simp add: str_def)
  then show ?thesis
    using several_hyphens_plain_variation [OF hyphens_button_is_active,
        of camelCase_words False "str ''components/Card/Card.scss''"]
      hyphens_button_is_active
    by simp
qed

section \<open>ActiveDatesCard: the claims\<close>

text \<open>
  Claim C1. \<open>getValidEndDateTime\<close> converts both timestamps into the time zone of the shop.
  When both are dates and the start is at or after the end, it returns the end of the
  start's day, converted back to UTC, as an ISO string; in every other case, a start before
  the end or a timestamp that is not a date, it returns the end timestamp it was given,
  the same string. \<open>toISOString\<close> gives the string of a date and fails only on the invalid
  date.
\<close>

theorem getValidEndDateTime_corrects_or_keeps:
  "getValidEndDateTime env s e tz =
     (case getDateTimeInShopTimeZone env s tz of
        InvalidDate \<Rightarrow> Inr e
      | TimeValue start_local \<Rightarrow>
          (case getDateTimeInShopTimeZone env e tz of
             InvalidDate \<Rightarrow> Inr e
           | TimeValue end_local \<Rightarrow>
               if end_local \<le> start_local
               then toISOString env
                      (getDateInUTC env (getNewDateAtEndOfDay env (TimeValue start_local)) tz)
               else Inr e))"
  by (simp add: getValidEndDateTime_def date_ge_def Let_def split: Date.split)

text \<open>
  Claim C7. The comment of \<open>initShowEndDate\<close> says what the claim says: false if the end
  date is \<open>null\<close>, true if it is not \<open>null\<close> and has an error. The code tests
  \<open>!endDate.value\<close> first, and the empty string is falsy: with the empty string as the
  value of the end date, which is not \<open>null\<close>, and an error set, the function returns
  false.
\<close>

theorem initShowEndDate_empty_end_with_error:
  "initShowEndDate \<lparr>value = str ''2022-06-13T10:00:00.000Z'', error = False\<rparr>
     \<lparr>value = Some [], error = True\<rparr> = False"
  by (simp add: initShowEndDate_def truthy_def)

text \<open>
  On every other end date the function does what its comment and claim C7 say: false on
  \<open>null\<close>, true on a value with an error set, and otherwise true exactly when the values
  of the start date and of the end date are different strings.
\<close>

lemma initShowEndDate_on_timestamps:
  assumes "value ed \<noteq> Some []"
  shows "initShowEndDate sd ed =
     (case value ed of
        None \<Rightarrow> False
      | Some e \<Rightarrow> if error ed then True else value sd \<noteq> e)"
  using assms by (auto simp: initShowEndDate_def truthy_def split: option.split)

text \<open>
  Claim C10. When the value of the end date is the empty string, \<open>initShowEndDate\<close> is
  false for every start date, whether the error of the end date is set or not: the test of
  absence is the truthiness of the value.
\<close>

theorem initShowEndDate_empty_string:
  "initShowEndDate sd \<lparr>value = Some [], error = err\<rparr> = False"
  by (simp add: initShowEndDate_def truthy_def)



text \<open>
  Claim C9. From a card that shows the end date, and with a start date whose end of day in
  the time zone of the shop, converted to UTC, is a date: the first call of
  \<open>handleShowEndDateChange\<close> sets the end date to \<open>null\<close> and hides it; the second call, in
  the render that follows, sets the end date to the ISO string of that end of day and shows
  it again.
\<close>

theorem toggle_off_then_on:
  assumes "showEndDate c"
    and "getDateInUTC env
           (getNewDateAtEndOfDay env
              (getDateTimeInShopTimeZone env (value (startDate c)) (ianaTimezone c)))
           (ianaTimezone c) = TimeValue t"
  shows "handleShowEndDateChange env c = ([EndDate_onChange None, SetShowEndDate_toggle], None) \<and>
         value (endDate (rerender c (handleShowEndDateChange env c))) = None \<and>
         \<not> showEndDate (rerender c (handleShowEndDateChange env c)) \<and>
         handleShowEndDateChange env (rerender c (handleShowEndDateChange env c)) =
           ([EndDate_onChange (Some (isoFormat env t)), SetShowEndDate_toggle], None) \<and>
         value (endDate (rerender (rerender c (handleShowEndDateChange env c))
                  (handleShowEndDateChange env (rerender c (handleShowEndDateChange env c))))) =
           Some (isoFormat env t) \<and>
         showEndDate (rerender (rerender c (handleShowEndDateChange env c))
                  (handleShowEndDateChange env (rerender c (handleShowEndDateChange env c))))"
proof -
  define off where "off = rerender c (handleShowEndDateChange env c)"
  have first: "handleShowEndDateChange env c = ([EndDate_onChange None, SetShowEndDate_toggle], None)"
    using assms(1) by (simp add: handleShowEndDateChange_def)
  have off: "off = c\<lparr>endDate := \<lparr>value = None, error = False\<rparr>, showEndDate := False\<rparr>"
    using assms(1) by (simp add: off_def first rerender_def)
  have cleared: "value (endDate off) = None" and hidden: "\<not> showEndDate off"
    by (simp_all add: off)
  have second: "handleShowEndDateChange env off =
      ([EndDate_onChange (Some (isoFormat env t)), SetShowEndDate_toggle], None)"
    using assms(2) by (simp add: off handleShowEndDateChange_def toISOString_def Let_def)
  have regenerated: "value (endDate (rerender off (handleShowEndDateChange env off))) =
      Some (isoFormat env t)"
    unfolding second by (simp add: rerender_def)
  have shown: "showEndDate (rerender off (handleShowEndDateChange env off))"
    unfolding second using hidden by (simp add: rerender_def)
  from first cleared hidden second regenerated shown show ?thesis
    unfolding off_def by blast
qed




lemma sample_end_of_day:
  "getDateInUTC utc_shop
     (getNewDateAtEndOfDay utc_shop
        (getDateTimeInShopTimeZone utc_shop (value (startDate sample_card))
           (ianaTimezone sample_card)))
     (ianaTimezone sample_card) = TimeValue 1655164799999"
  by (simp add: sample_card_def utc_shop_def sample_dates_def str_def)

lemma sample_isoFormat:
  "isoFormat utc_shop 1655164799999 = str ''2022-06-13T23:59:59.999Z''"
  by (simp add: utc_shop_def sample_dates_def)

text \<open>The theorem of claim C9 on the sample card.\<close>

theorem toggle_off_then_on_witness:
  "showEndDate sample_card \<and>
   getDateInUTC utc_shop
     (getNewDateAtEndOfDay utc_shop
        (getDateTimeInShopTimeZone utc_shop (value (startDate sample_card))
           (ianaTimezone sample_card)))
     (ianaTimezone sample_card) = TimeValue 1655164799999 \<and>
   value (endDate (rerender sample_card (handleShowEndDateChange utc_shop sample_card))) = None \<and>
   \<not> showEndDate (rerender sample_card (handleShowEndDateChange utc_shop sample_card)) \<and>
   value (endDate
     (rerender (rerender sample_card (handleShowEndDateChange utc_shop sample_card))
        (handleShowEndDateChange utc_shop
           (rerender sample_card (handleShowEndDateChange utc_shop sample_card))))) =
     Some (str ''2022-06-13T23:59:59.999Z'') \<and>
   showEndDate
     (rerender (rerender sample_card (handleShowEndDateChange utc_shop sample_card))
        (handleShowEndDateChange utc_shop
           (rerender sample_card (handleShowEndDateChange utc_shop sample_card))))"
proof -
  have shown: "showEndDate sample_card" by (simp add: sample_card_def)
  from toggle_off_then_on [OF shown sample_end_of_day, unfolded sample_isoFormat]
  show ?thesis using shown sample_end_of_day by blast
qed

end
